theory Spec2Isabelle
  imports Complex_Main "HOL-Library.Sublist"
begin

section \<open>Data model of \<open>make_table.py\<close>\<close>

text \<open>
  A flux value is a number read from a catalogue column. Only its comparison with the
  threshold is ever used, so a finite value is represented by the rational number it
  denotes; the two infinities and the not-a-number value of the column type are kept as
  separate constructors, because the comparison treats them specially.
\<close>

datatype flux = NaN | NInf | Fin rat | PInf

text \<open>The comparison \<open>a > b\<close> of the source: false as soon as one side is not a number.\<close>

fun flux_gt :: "flux \<Rightarrow> flux \<Rightarrow> bool" where
  "flux_gt NaN b = False"
| "flux_gt a NaN = False"
| "flux_gt NInf b = False"
| "flux_gt (Fin x) NInf = True"
| "flux_gt (Fin x) (Fin y) = (y < x)"
| "flux_gt (Fin x) PInf = False"
| "flux_gt PInf NInf = True"
| "flux_gt PInf (Fin y) = True"
| "flux_gt PInf PInf = False"

text \<open>
  A row maps column names to values; \<open>row["c"]\<close> raises a key error when the column
  \<open>c\<close> is absent. A table is its column names, its per-column data types and its rows in
  order.
\<close>

type_synonym row = "string \<rightharpoonup> flux"

datatype error = KeyError string

record table =
  names :: "string list"
  dtype :: "string list"
  rows :: "row list"

section \<open>The predicate \<open>row_is_valid\<close>\<close>

text \<open>
  One operand \<open>(row["c"] > lim)\<close>: the lookup may raise, otherwise the comparison. The
  threshold \<open>lim\<close> of the source is written \<open>limit\<close>, \<open>lim\<close> being a constant of analysis.
\<close>

definition col_gt :: "row \<Rightarrow> string \<Rightarrow> flux \<Rightarrow> error + bool" where
  "col_gt row c limit = (case row c of None \<Rightarrow> Inl (KeyError c) | Some v \<Rightarrow> Inr (flux_gt v limit))"

text \<open>
  \<open>a & b\<close>: both operands are evaluated, the left one first, so the error of the left
  operand wins, then the error of the right one; only then are the two booleans combined.
\<close>

fun band :: "error + bool \<Rightarrow> error + bool \<Rightarrow> error + bool" where
  "band (Inl e) b = Inl e"
| "band (Inr x) (Inl e) = Inl e"
| "band (Inr x) (Inr y) = Inr (x \<and> y)"

text \<open>\<open>a or b\<close>: the right operand is evaluated only when the left one is false.\<close>

fun bor :: "error + bool \<Rightarrow> error + bool \<Rightarrow> error + bool" where
  "bor (Inl e) b = Inl e"
| "bor (Inr True) b = Inr True"
| "bor (Inr False) b = b"

text \<open>The operands in the order of the source; \<open>&\<close> associates to the left.\<close>

definition row_is_valid :: "row \<Rightarrow> flux \<Rightarrow> error + bool" where
  "row_is_valid row limit =
     band (band (band (band (band (band (band (band (band (band (band
       (col_gt row ''u_flux'' limit)
       (col_gt row ''g_flux'' limit))
       (col_gt row ''z_flux'' limit))
       (col_gt row ''r_flux'' limit))
       (col_gt row ''z_flux'' limit))
       (col_gt row ''J_flux'' limit))
       (bor (col_gt row ''ch1_swire_flux'' limit) (col_gt row ''ch1_servs_flux'' limit)))
       (col_gt row ''F_SPIRE_250'' limit))
       (col_gt row ''F_PACS_160'' limit))
       (col_gt row ''F_PACS_100'' limit))
       (col_gt row ''K_flux'' limit))
       (col_gt row ''F_MIPS_24'' limit)"

section \<open>The selection \<open>short_table\<close>\<close>

text \<open>
  The loop of \<open>short_table\<close> over the remaining rows, with the selection built so far:
  the length test comes first and ends the loop, then the predicate is evaluated, and a
  row that passes is appended.
\<close>

fun short_table_loop :: "row list \<Rightarrow> flux \<Rightarrow> row list \<Rightarrow> error + row list" where
  "short_table_loop [] limit selection = Inr selection"
| "short_table_loop (r # rs) limit selection =
     (if length selection \<ge> 50 then Inr selection
      else case row_is_valid r limit of
             Inl e \<Rightarrow> Inl e
           | Inr ok \<Rightarrow> short_table_loop rs limit (if ok then selection @ [r] else selection))"

definition short_table :: "table \<Rightarrow> flux \<Rightarrow> error + table" where
  "short_table t limit =
     (case short_table_loop (rows t) limit [] of
        Inl e \<Rightarrow> Inl e
      | Inr selection \<Rightarrow> Inr \<lparr>names = names t, dtype = dtype t, rows = selection\<rparr>)"

section \<open>Vocabulary of the specification\<close>

text \<open>
  The ten columns that each have to exceed the threshold, and the twelve columns the
  predicate reads: the ten and the pair \<open>ch1_swire_flux\<close>, \<open>ch1_servs_flux\<close>.
\<close>

definition required_columns :: "string list" where
  "required_columns = [''u_flux'', ''g_flux'', ''r_flux'', ''z_flux'', ''J_flux'', ''K_flux'',
     ''F_SPIRE_250'', ''F_PACS_160'', ''F_PACS_100'', ''F_MIPS_24'']"

definition flux_columns :: "string list" where
  "flux_columns = required_columns @ [''ch1_swire_flux'', ''ch1_servs_flux'']"


text \<open>Column \<open>c\<close> of the row holds a value strictly greater than the threshold.\<close>

definition exceeds :: "row \<Rightarrow> string \<Rightarrow> flux \<Rightarrow> bool" where
  "exceeds row c limit = (case row c of None \<Rightarrow> False | Some v \<Rightarrow> flux_gt v limit)"

text \<open>The predicate evaluated on the row without an error, with the result true.\<close>

definition valid :: "flux \<Rightarrow> row \<Rightarrow> bool" where
  "valid limit row = (row_is_valid row limit = Inr True)"

text \<open>The predicate evaluated on the row without an error, whatever the result.\<close>

definition evaluates :: "flux \<Rightarrow> row \<Rightarrow> bool" where
  "evaluates limit row = (\<not> isl (row_is_valid row limit))"

text \<open>
  The predicate as the specification reads it once the repeated clause is dropped: one
  check for each of the twelve columns, everything else as in \<open>row_is_valid\<close>.
\<close>

definition row_is_valid_single_z :: "row \<Rightarrow> flux \<Rightarrow> error + bool" where
  "row_is_valid_single_z row limit =
     band (band (band (band (band (band (band (band (band (band
       (col_gt row ''u_flux'' limit)
       (col_gt row ''g_flux'' limit))
       (col_gt row ''z_flux'' limit))
       (col_gt row ''r_flux'' limit))
       (col_gt row ''J_flux'' limit))
       (bor (col_gt row ''ch1_swire_flux'' limit) (col_gt row ''ch1_servs_flux'' limit)))
       (col_gt row ''F_SPIRE_250'' limit))
       (col_gt row ''F_PACS_160'' limit))
       (col_gt row ''F_PACS_100'' limit))
       (col_gt row ''K_flux'' limit))
       (col_gt row ''F_MIPS_24'' limit)"

section \<open>Example rows and tables\<close>

text \<open>A row with the same value in each of the twelve columns, and no other column.\<close>

definition uniform_row :: "flux \<Rightarrow> row" where
  "uniform_row v = map_of (map (\<lambda>c. (c, v)) flux_columns)"

text \<open>Rows that differ in \<open>u_flux\<close> only, all of them above the threshold 10.\<close>

definition numbered_row :: "nat \<Rightarrow> row" where
  "numbered_row i = (uniform_row (Fin 100))(''u_flux'' \<mapsto> Fin (100 + of_nat i))"

text \<open>\<open>ch1_swire_flux\<close> below the threshold 10, \<open>ch1_servs_flux\<close> above it.\<close>

definition servs_only_row :: row where
  "servs_only_row = (uniform_row (Fin 100))(''ch1_swire_flux'' \<mapsto> Fin 5, ''ch1_servs_flux'' \<mapsto> Fin 20)"

text \<open>\<open>F_MIPS_24\<close> exactly at the threshold 10.\<close>

definition at_limit_row :: row where
  "at_limit_row = (uniform_row (Fin 100))(''F_MIPS_24'' \<mapsto> Fin 10)"

text \<open>\<open>u_flux\<close> below the threshold 10 and the column \<open>F_MIPS_24\<close> absent.\<close>

definition dim_incomplete_row :: row where
  "dim_incomplete_row = (uniform_row (Fin 100))(''u_flux'' \<mapsto> Fin 5, ''F_MIPS_24'' := None)"

definition example_dtype :: "string list" where
  "example_dtype = replicate 12 ''>f8''"

definition small_table :: table where
  "small_table = \<lparr>names = flux_columns, dtype = example_dtype,
     rows = [numbered_row 0, servs_only_row, at_limit_row, numbered_row 1]\<rparr>"

definition small_selection :: table where
  "small_selection = \<lparr>names = flux_columns, dtype = example_dtype,
     rows = [numbered_row 0, servs_only_row, numbered_row 1]\<rparr>"

definition long_table :: table where
  "long_table = \<lparr>names = flux_columns, dtype = example_dtype,
     rows = map numbered_row [0..<50] @ dim_incomplete_row # map numbered_row [50..<60]\<rparr>"

definition long_selection :: table where
  "long_selection = \<lparr>names = flux_columns, dtype = example_dtype,
     rows = map numbered_row [0..<50]\<rparr>"

definition broken_table :: table where
  "broken_table = \<lparr>names = flux_columns, dtype = example_dtype,
     rows = [numbered_row 0, at_limit_row, dim_incomplete_row, numbered_row 1]\<rparr>"

section \<open>Auxiliary facts\<close>

subsection \<open>When the predicate is true\<close>






lemma col_gt_False_exceeds: "col_gt r c l = Inr False \<longleftrightarrow> r c \<noteq> None \<and> \<not> exceeds r c l"
  by (auto simp: col_gt_def exceeds_def split: option.splits)


subsection \<open>When the predicate raises\<close>

lemma band_isl: "isl (band a b) \<longleftrightarrow> isl a \<or> isl b"
  by (cases "(a, b)" rule: band.cases) auto

lemma bor_isl: "isl (bor a b) \<longleftrightarrow> isl a \<or> (a = Inr False \<and> isl b)"
  by (cases "(a, b)" rule: bor.cases) auto

lemma col_gt_isl: "isl (col_gt r c l) \<longleftrightarrow> r c = None"
  by (auto simp: col_gt_def split: option.splits)

lemma isl_chain:
  "isl (band (band (band (band (band (band (band (band (band (band (band
       a1 a2) a3) a4) a5) a6) (bor a7 a8)) a9) a10) a11) a12) a13) \<longleftrightarrow>
   isl a1 \<or> isl a2 \<or> isl a3 \<or> isl a4 \<or> isl a5 \<or> isl a6 \<or> isl a7 \<or> (a7 = Inr False \<and> isl a8) \<or>
   isl a9 \<or> isl a10 \<or> isl a11 \<or> isl a12 \<or> isl a13"
  by (simp only: band_isl bor_isl disj_assoc)

lemma row_is_valid_isl:
  "isl (row_is_valid r l) \<longleftrightarrow>
     \<not> list_all (\<lambda>c. r c \<noteq> None) required_columns \<or> r ''ch1_swire_flux'' = None \<or>
     (r ''ch1_servs_flux'' = None \<and> \<not> exceeds r ''ch1_swire_flux'' l)"
proof -
  define u where "u = r ''u_flux''"
  define g where "g = r ''g_flux''"
  define z where "z = r ''z_flux''"
  define rr where "rr = r ''r_flux''"
  define J where "J = r ''J_flux''"
  define K where "K = r ''K_flux''"
  define sw where "sw = r ''ch1_swire_flux''"
  define se where "se = r ''ch1_servs_flux''"
  define s250 where "s250 = r ''F_SPIRE_250''"
  define p160 where "p160 = r ''F_PACS_160''"
  define p100 where "p100 = r ''F_PACS_100''"
  define m24 where "m24 = r ''F_MIPS_24''"
  define X where "X = exceeds r ''ch1_swire_flux'' l"
  note defs = u_def g_def z_def rr_def J_def K_def sw_def se_def s250_def p160_def p100_def
    m24_def X_def
  have "isl (row_is_valid r l) \<longleftrightarrow>
     u = None \<or> g = None \<or> z = None \<or> rr = None \<or> z = None \<or> J = None \<or> sw = None \<or>
     ((sw \<noteq> None \<and> \<not> X) \<and> se = None) \<or> s250 = None \<or> p160 = None \<or> p100 = None \<or>
     K = None \<or> m24 = None"
    unfolding row_is_valid_def isl_chain col_gt_isl col_gt_False_exceeds defs ..
  also have "\<dots> \<longleftrightarrow> \<not> (u \<noteq> None \<and> g \<noteq> None \<and> rr \<noteq> None \<and> z \<noteq> None \<and> J \<noteq> None \<and> K \<noteq> None \<and>
       s250 \<noteq> None \<and> p160 \<noteq> None \<and> p100 \<noteq> None \<and> m24 \<noteq> None) \<or> sw = None \<or> (se = None \<and> \<not> X)"
    by blast
  also have "\<dots> \<longleftrightarrow> \<not> list_all (\<lambda>c. r c \<noteq> None) required_columns \<or> r ''ch1_swire_flux'' = None \<or>
     (r ''ch1_servs_flux'' = None \<and> \<not> exceeds r ''ch1_swire_flux'' l)"
    unfolding defs required_columns_def by simp
  finally show ?thesis .
qed

subsection \<open>The loop\<close>

lemma evaluates_Inr: "evaluates l r \<Longrightarrow> \<exists>b. row_is_valid r l = Inr b"
  by (cases "row_is_valid r l") (simp_all add: evaluates_def)

lemma valid_Inr: "row_is_valid r l = Inr b \<Longrightarrow> valid l r = b"
  by (simp add: valid_def)

lemma loop_full: "50 \<le> length sel \<Longrightarrow> short_table_loop rs l sel = Inr sel"
  by (cases rs) simp_all

lemma loop_prefix:
  "list_all (evaluates l) pre \<Longrightarrow>
   post = [] \<or> 50 \<le> length sel + length (filter (valid l) pre) \<Longrightarrow>
   short_table_loop (pre @ post) l sel = Inr (sel @ take (50 - length sel) (filter (valid l) pre))"
proof (induction pre arbitrary: sel)
  case Nil
  then show ?case by (auto simp: loop_full)
next
  case (Cons r pre)
  show ?case
  proof (cases "50 \<le> length sel")
    case True
    then show ?thesis by simp
  next
    case False
    from Cons.prems(1) obtain b where b: "row_is_valid r l = Inr b"
      using evaluates_Inr [of l r] by auto
    let ?sel = "if b then sel @ [r] else sel"
    have "short_table_loop (pre @ post) l ?sel =
       Inr (?sel @ take (50 - length ?sel) (filter (valid l) pre))"
      using Cons.prems valid_Inr [OF b] by (intro Cons.IH) auto
    with False b valid_Inr [OF b] show ?thesis
      by (cases b) (simp_all add: take_Cons' Suc_diff_Suc)
  qed
qed

lemma loop_error:
  "list_all (evaluates l) pre \<Longrightarrow> length sel + length (filter (valid l) pre) < 50 \<Longrightarrow>
   row_is_valid r l = Inl e \<Longrightarrow> short_table_loop (pre @ r # post) l sel = Inl e"
proof (induction pre arbitrary: sel)
  case Nil
  then show ?case by simp
next
  case (Cons x pre)
  from Cons.prems(1) obtain b where b: "row_is_valid x l = Inr b"
    using evaluates_Inr [of l x] by auto
  let ?sel = "if b then sel @ [x] else sel"
  have "short_table_loop (pre @ r # post) l ?sel = Inl e"
    using Cons.prems valid_Inr [OF b] by (intro Cons.IH) auto
  with Cons.prems(2) b show ?case by simp
qed

lemma loop_length:
  "short_table_loop rs l sel = Inr out \<Longrightarrow> length sel \<le> 50 \<Longrightarrow> length out \<le> 50"
proof (induction rs arbitrary: sel)
  case Nil
  then show ?case by simp
next
  case (Cons r rs)
  show ?case
  proof (cases "50 \<le> length sel")
    case True
    with Cons.prems show ?thesis by simp
  next
    case False
    with Cons.prems obtain b where b: "row_is_valid r l = Inr b"
      and rec: "short_table_loop rs l (if b then sel @ [r] else sel) = Inr out"
      by (auto split: sum.splits)
    from False have "length (if b then sel @ [r] else sel) \<le> 50" by simp
    with rec show ?thesis by (rule Cons.IH)
  qed
qed


subsection \<open>Positions in a subsequence\<close>



subsection \<open>Thresholds, the repeated clause and rows with every column\<close>


lemma band_repeat: "band (band (band a z) b) z = band (band a z) b"
  by (cases a; cases z; cases b) auto


subsection \<open>The examples evaluated\<close>

lemmas example_defs = uniform_row_def numbered_row_def servs_only_row_def at_limit_row_def
  dim_incomplete_row_def flux_columns_def required_columns_def

lemma numbered_row_True: "row_is_valid (numbered_row i) (Fin 10) = Inr True"
  by (simp add: row_is_valid_def col_gt_def example_defs)

lemma servs_only_row_True: "row_is_valid servs_only_row (Fin 10) = Inr True"
  by (simp add: row_is_valid_def col_gt_def example_defs)

lemma at_limit_row_False: "row_is_valid at_limit_row (Fin 10) = Inr False"
  by (simp add: row_is_valid_def col_gt_def example_defs)

lemma dim_incomplete_row_error:
  "row_is_valid dim_incomplete_row (Fin 10) = Inl (KeyError ''F_MIPS_24'')"
  by (simp add: row_is_valid_def col_gt_def example_defs)

lemmas example_rows = numbered_row_True servs_only_row_True at_limit_row_False
  dim_incomplete_row_error

lemma small_table_selection: "short_table small_table (Fin 10) = Inr small_selection"
  by (simp add: short_table_def small_table_def small_selection_def example_rows)

lemma long_table_selection: "short_table long_table (Fin 10) = Inr long_selection"
proof -
  let ?pre = "map numbered_row [0..<50]"
  let ?post = "dim_incomplete_row # map numbered_row [50..<60]"
  have ev: "list_all (evaluates (Fin 10)) ?pre"
    by (simp add: list_all_iff evaluates_def numbered_row_True)
  have sel: "filter (valid (Fin 10)) ?pre = ?pre"
    by (simp add: valid_def numbered_row_True)
  then have "?post = [] \<or> 50 \<le> length ([] :: row list) + length (filter (valid (Fin 10)) ?pre)"
    by simp
  with ev have "short_table_loop (?pre @ ?post) (Fin 10) [] =
      Inr ([] @ take (50 - length ([] :: row list)) (filter (valid (Fin 10)) ?pre))"
    by (rule loop_prefix)
  with sel show ?thesis
    by (simp add: short_table_def long_table_def long_selection_def)
qed

section \<open>Properties\<close>





text \<open>C3. A table returned by \<open>short_table\<close> has at most 50 rows.\<close>

theorem short_table_at_most_50:
  "short_table t limit = Inr s \<Longrightarrow> length (rows s) \<le> 50"
proof -
  assume "short_table t limit = Inr s"
  then have "short_table_loop (rows t) limit [] = Inr (rows s)"
    by (auto simp: short_table_def split: sum.splits)
  then show ?thesis by (rule loop_length) simp
qed

theorem short_table_at_most_50_witness:
  "short_table long_table (Fin 10) = Inr long_selection \<and> length (rows long_selection) \<le> 50"
  using short_table_at_most_50 [OF long_table_selection] long_table_selection by simp



text \<open>
  C5. A table returned by \<open>short_table\<close> has the column names and the per-column data
  types of the source table, in the same order.
\<close>

theorem short_table_schema:
  "short_table t limit = Inr s \<Longrightarrow> names s = names t \<and> dtype s = dtype t"
  by (auto simp: short_table_def split: sum.splits)

theorem short_table_schema_witness:
  "rows small_table \<noteq> [] \<and> short_table small_table (Fin 10) = Inr small_selection \<and>
   names small_selection = names small_table \<and> dtype small_selection = dtype small_table"
  using short_table_schema [OF small_table_selection] small_table_selection
  by (simp add: small_table_def)



text \<open>
  C7. The second \<open>z_flux\<close> clause changes nothing: \<open>row_is_valid\<close> and the predicate with
  one check per column agree on every row and threshold, errors included.
\<close>

theorem row_is_valid_duplicate_noop:
  "row_is_valid r limit = row_is_valid_single_z r limit"
  unfolding row_is_valid_def row_is_valid_single_z_def
  by (simp only: band_repeat)

text \<open>
  C8. When the predicate raises on a row that the scan reaches, that is after rows on
  which it evaluated and of which fewer than 50 were valid, \<open>short_table\<close> fails with that
  error and returns no table.
\<close>

theorem short_table_fails:
  assumes "rows t = pre @ r # post"
    and "list_all (evaluates limit) pre"
    and "length (filter (valid limit) pre) < 50"
    and "row_is_valid r limit = Inl e"
  shows "short_table t limit = Inl e"
proof -
  from assms(3) have "length ([] :: row list) + length (filter (valid limit) pre) < 50"
    by simp
  with assms(2) have "short_table_loop (pre @ r # post) limit [] = Inl e"
    using assms(4) by (rule loop_error)
  with assms(1) show ?thesis by (simp add: short_table_def)
qed

theorem short_table_fails_witness:
  "short_table broken_table (Fin 10) = Inl (KeyError ''F_MIPS_24'')"
proof -
  let ?pre = "[numbered_row 0, at_limit_row]"
  have split: "rows broken_table = ?pre @ dim_incomplete_row # [numbered_row 1]"
    by (simp add: broken_table_def)
  have ev: "list_all (evaluates (Fin 10)) ?pre"
    by (simp add: evaluates_def example_rows)
  have few: "length (filter (valid (Fin 10)) ?pre) < 50"
    by simp
  from short_table_fails [OF split ev few dim_incomplete_row_error] show ?thesis .
qed

text \<open>
  C9. For a source table without rows, \<open>short_table\<close> returns, without an error, the
  table without rows that has the column names and data types of the source.
\<close>

theorem short_table_empty:
  "short_table \<lparr>names = ns, dtype = ds, rows = []\<rparr> limit = Inr \<lparr>names = ns, dtype = ds, rows = []\<rparr>"
  by (simp add: short_table_def)

text \<open>
  C10. \<open>&\<close> does not short-circuit: \<open>row_is_valid\<close> raises exactly when one of the ten
  required columns or \<open>ch1_swire_flux\<close> is absent, or \<open>ch1_servs_flux\<close> is absent and
  \<open>ch1_swire_flux\<close> does not exceed the threshold, whether or not another clause is already
  false; \<open>ch1_servs_flux\<close> is not looked up when \<open>ch1_swire_flux\<close> exceeds the threshold.
\<close>

theorem row_is_valid_raises_iff:
  "isl (row_is_valid r limit) \<longleftrightarrow>
     list_ex (\<lambda>c. r c = None) required_columns \<or> r ''ch1_swire_flux'' = None \<or>
     (r ''ch1_servs_flux'' = None \<and> \<not> exceeds r ''ch1_swire_flux'' limit)"
  unfolding row_is_valid_isl list_all_iff list_ex_iff by simp

theorem row_is_valid_raises_iff_witness:
  "isl (row_is_valid dim_incomplete_row (Fin 10)) \<and>
   \<not> isl (row_is_valid ((uniform_row (Fin 100))(''ch1_servs_flux'' := None)) (Fin 10))"
  using row_is_valid_raises_iff [of dim_incomplete_row "Fin 10"]
    row_is_valid_raises_iff [of "(uniform_row (Fin 100))(''ch1_servs_flux'' := None)" "Fin 10"]
  by (simp add: exceeds_def example_defs)

end
